theory Spec2Isabelle
  imports Main "HOL-Library.Word"
begin

section \<open>The ExecutiveFeedbackSystem contract\<close>

text \<open>
  The model follows the Solidity contract \<^verbatim>\<open>ExecutiveFeedbackSystem\<close> (the second document of
  \<^verbatim>\<open>src/frontend/web/src/App.tsx\<close>). Storage is a record that every function takes and
  returns; a \<^verbatim>\<open>require\<close> that fails, a reverting library call and an arithmetic or bounds
  panic are values \<open>Inl\<close> of the result; \<^verbatim>\<open>msg.sender\<close> and \<^verbatim>\<open>block.timestamp\<close> are arguments.
  Gas is not modelled.
\<close>

subsection \<open>Value types\<close>

type_synonym address = "160 word"
type_synonym bytes32 = "256 word"
type_synonym uint32 = "32 word"
type_synonym bytes = "8 word list"

text \<open>
  \<^verbatim>\<open>uint256\<close> values are natural numbers below \<open>2 ^ 256\<close>. Solidity 0.8 checks its arithmetic:
  an increment or a product that leaves the range panics instead of wrapping.
\<close>

definition UINT256_MAX :: nat where
  "UINT256_MAX = 2 ^ 256 - 1"

text \<open>
  Modelled from the spec: the declaration of \<^verbatim>\<open>euint32\<close> and \<^verbatim>\<open>FHE.toBytes32\<close> belong to the
  imported \<^verbatim>\<open>FHE\<close> library, which is not part of the repository. A ciphertext handle is an
  opaque reference under which the coprocessor stores an encrypted value: here a
  \<^verbatim>\<open>bytes32\<close> under another name, which \<^verbatim>\<open>FHE.toBytes32\<close> takes out again. A storage slot
  never written holds handle \<open>0\<close>.
\<close>

datatype euint32 = Euint32 bytes32

fun toBytes32 :: "euint32 \<Rightarrow> bytes32" where
  "toBytes32 (Euint32 h) = h"

text \<open>A fixed-size array \<^verbatim>\<open>T[5]\<close>. Reading or writing at an index \<open>\<ge> 5\<close> panics (\<open>None\<close>).\<close>

datatype 'a array5 = Array5 'a 'a 'a 'a 'a

fun index5 :: "'a array5 \<Rightarrow> nat \<Rightarrow> 'a option" where
  "index5 (Array5 a0 a1 a2 a3 a4) i =
     (if i = 0 then Some a0 else if i = 1 then Some a1 else if i = 2 then Some a2
      else if i = 3 then Some a3 else if i = 4 then Some a4 else None)"

fun update5 :: "'a array5 \<Rightarrow> nat \<Rightarrow> 'a \<Rightarrow> 'a array5 option" where
  "update5 (Array5 a0 a1 a2 a3 a4) i v =
     (if i = 0 then Some (Array5 v a1 a2 a3 a4) else if i = 1 then Some (Array5 a0 v a2 a3 a4)
      else if i = 2 then Some (Array5 a0 a1 v a3 a4) else if i = 3 then Some (Array5 a0 a1 a2 v a4)
      else if i = 4 then Some (Array5 a0 a1 a2 a3 v) else None)"

fun list5 :: "'a array5 \<Rightarrow> 'a list" where
  "list5 (Array5 a0 a1 a2 a3 a4) = [a0, a1, a2, a3, a4]"

subsection \<open>Structs and storage\<close>

record FeedbackCategory =
  encryptedScore :: euint32
  encryptedWeight :: euint32

record EncryptedFeedback =
  executive :: address
  reviewer :: address
  categories :: "FeedbackCategory array5"
  encryptedComments :: euint32
  timestamp :: nat

record LeadershipReport =
  encryptedAvgScores :: "euint32 array5"
  encryptedOverallScore :: euint32
  isAggregated :: bool

datatype event =
    FeedbackSubmitted nat address
  | AggregationRequested address
  | ReportGenerated address
  | ReportDecrypted address

datatype selector = AggregateFeedbackSelector | DecryptReportSelector

text \<open>
  One call of \<^verbatim>\<open>FHE.requestComputation\<close> or \<^verbatim>\<open>FHE.requestDecryption\<close>, as the coprocessor
  receives it: the request id it answers with, the handles and the callback selector.
  \<open>req_sender\<close> notes the \<^verbatim>\<open>msg.sender\<close> of the transaction that issued the request; the
  contract itself stores none of this (\<^verbatim>\<open>reqId\<close> is a local variable that is never used).
\<close>

record request =
  req_id :: nat
  req_sender :: address
  req_handles :: "bytes32 list"
  req_callback :: selector

text \<open>
  The state variables of the contract, followed by its two outputs: the log of emitted events
  and the requests handed to the coprocessor, both oldest first.
\<close>

record state =
  feedbackCount :: nat
  feedbacks :: "nat \<Rightarrow> EncryptedFeedback"
  reports :: "address \<Rightarrow> LeadershipReport"
  isExecutive :: "address \<Rightarrow> bool"
  isReviewer :: "address \<Rightarrow> bool"
  feedbackPeriod :: nat
  events :: "event list"
  requests :: "request list"

definition MIN_REVIEWERS :: nat where
  "MIN_REVIEWERS = 5"

definition zeroCategory :: FeedbackCategory where
  "zeroCategory = \<lparr>encryptedScore = Euint32 0, encryptedWeight = Euint32 0\<rparr>"

definition zeroCategories :: "FeedbackCategory array5" where
  "zeroCategories = Array5 zeroCategory zeroCategory zeroCategory zeroCategory zeroCategory"

definition zeroHandles :: "euint32 array5" where
  "zeroHandles = Array5 (Euint32 0) (Euint32 0) (Euint32 0) (Euint32 0) (Euint32 0)"

definition zeroFeedback :: EncryptedFeedback where
  "zeroFeedback = \<lparr>executive = 0, reviewer = 0, categories = zeroCategories,
     encryptedComments = Euint32 0, timestamp = 0\<rparr>"

definition zeroReport :: LeadershipReport where
  "zeroReport = \<lparr>encryptedAvgScores = zeroHandles, encryptedOverallScore = Euint32 0,
     isAggregated = False\<rparr>"

text \<open>The storage of a freshly deployed contract: everything zero, the period 30 days.\<close>

definition deployed :: state where
  "deployed = \<lparr>feedbackCount = 0, feedbacks = (\<lambda>_. zeroFeedback), reports = (\<lambda>_. zeroReport),
     isExecutive = (\<lambda>_. False), isReviewer = (\<lambda>_. False), feedbackPeriod = 30 * 86400,
     events = [], requests = []\<rparr>"

subsection \<open>Errors and the library\<close>

text \<open>
  \<open>Require m\<close> is a failed \<^verbatim>\<open>require(..., m)\<close>; \<open>SignaturesRejected\<close> and
  \<open>DecodeFailed\<close> are the reverts of \<^verbatim>\<open>FHE.checkSignatures\<close> and \<^verbatim>\<open>abi.decode\<close>; \<open>Panic\<close> is
  a checked-arithmetic overflow or an index out of bounds.
\<close>

datatype error = Require string | SignaturesRejected | DecodeFailed | Panic

text \<open>
  The parts of the \<^verbatim>\<open>FHE\<close> library and of the ABI decoder that the contract calls and that are
  not part of the repository are parameters:
  \<^item> \<open>checkSignatures requestId payload proof\<close> is \<open>True\<close> when \<^verbatim>\<open>FHE.checkSignatures\<close>
    returns and \<open>False\<close> when it reverts;
  \<^item> \<open>abiDecode payload\<close> is \<^verbatim>\<open>abi.decode(payload, (uint32[5], uint32))\<close>, \<open>None\<close> when it
    reverts;
  \<^item> \<open>asEuint32 v\<close> is the handle \<^verbatim>\<open>FHE.asEuint32(v)\<close>.
  The verdict of the proof check is a function of the request id, the payload and the proof,
  as the verifier \<^verbatim>\<open>verify(requestId, payload, proof) -> bool\<close> of the specification is.
\<close>

record library =
  checkSignatures :: "nat \<Rightarrow> bytes \<Rightarrow> bytes \<Rightarrow> bool"
  abiDecode :: "bytes \<Rightarrow> (uint32 array5 \<times> uint32) option"
  asEuint32 :: "uint32 \<Rightarrow> euint32"

text \<open>
  Modelled from the spec: \<^verbatim>\<open>FHE.requestComputation\<close> and \<^verbatim>\<open>FHE.requestDecryption\<close> belong to
  the imported library too. They are the coprocessor's
  \<^verbatim>\<open>submitComputation(ciphertextHandles[]) -> requestId\<close> and
  \<^verbatim>\<open>submitDecryption(ciphertextHandles[]) -> requestId\<close>: the call returns at once with the id
  of the new request. The model numbers the requests consecutively from 0.
\<close>

definition issueRequest :: "address \<Rightarrow> bytes32 list \<Rightarrow> selector \<Rightarrow> state \<Rightarrow> state" where
  "issueRequest sender hs sel s =
     s\<lparr>requests := requests s @
        [\<lparr>req_id = length (requests s), req_sender = sender, req_handles = hs,
          req_callback = sel\<rparr>]\<rparr>"

definition emit :: "event \<Rightarrow> state \<Rightarrow> state" where
  "emit ev s = s\<lparr>events := events s @ [ev]\<rparr>"

subsection \<open>Identity and access\<close>

definition registerExecutive :: "address \<Rightarrow> state \<Rightarrow> error + state" where
  "registerExecutive sender s = Inr (s\<lparr>isExecutive := (isExecutive s)(sender := True)\<rparr>)"

definition approveReviewer :: "address \<Rightarrow> address \<Rightarrow> state \<Rightarrow> error + state" where
  "approveReviewer sender rv s = Inr (s\<lparr>isReviewer := (isReviewer s)(rv := True)\<rparr>)"

definition setFeedbackPeriod :: "address \<Rightarrow> nat \<Rightarrow> state \<Rightarrow> error + state" where
  "setFeedbackPeriod sender newPeriod s = Inr (s\<lparr>feedbackPeriod := newPeriod\<rparr>)"

subsection \<open>submitFeedback\<close>

text \<open>The loop \<^verbatim>\<open>for (uint i = 0; i < 5; i++) categories[i] = FeedbackCategory({...})\<close>.\<close>

function initCategories ::
  "euint32 array5 \<Rightarrow> euint32 array5 \<Rightarrow> nat \<Rightarrow> FeedbackCategory array5
     \<Rightarrow> error + FeedbackCategory array5" where
  "initCategories encryptedScores encryptedWeights i cats =
     (if i < 5 then
        (case index5 encryptedScores i of
           None \<Rightarrow> Inl Panic
         | Some sc \<Rightarrow>
            (case index5 encryptedWeights i of
               None \<Rightarrow> Inl Panic
             | Some w \<Rightarrow>
                (case update5 cats i \<lparr>encryptedScore = sc, encryptedWeight = w\<rparr> of
                   None \<Rightarrow> Inl Panic
                 | Some cats' \<Rightarrow>
                     initCategories encryptedScores encryptedWeights (i + 1) cats')))
      else Inr cats)"
  by pat_completeness auto
termination
  by (relation "measure (\<lambda>(sc, w, i, cats). 5 - i)") auto

text \<open>
  The modifier \<^verbatim>\<open>onlyReviewer\<close> runs first, then the \<^verbatim>\<open>require\<close> on the executive, then
  \<^verbatim>\<open>++feedbackCount\<close> (checked), the loop, the write of the record and the event. The function
  has no \<^verbatim>\<open>returns\<close> clause.
\<close>

definition submitFeedback ::
  "address \<Rightarrow> nat \<Rightarrow> address \<Rightarrow> euint32 array5 \<Rightarrow> euint32 array5 \<Rightarrow> euint32 \<Rightarrow> state
     \<Rightarrow> error + state" where
  "submitFeedback sender now ex encryptedScores encryptedWeights comments s =
     (if \<not> isReviewer s sender then Inl (Require ''Not reviewer'')
      else if \<not> isExecutive s ex then Inl (Require ''Invalid executive'')
      else if feedbackCount s \<ge> UINT256_MAX then Inl Panic
      else
        (let newId = feedbackCount s + 1 in
          (case initCategories encryptedScores encryptedWeights 0 zeroCategories of
             Inl e \<Rightarrow> Inl e
           | Inr cats \<Rightarrow>
               Inr (emit (FeedbackSubmitted newId ex)
                     (s\<lparr>feedbackCount := newId,
                        feedbacks := (feedbacks s)(newId :=
                          \<lparr>executive = ex, reviewer = sender, categories = cats,
                           encryptedComments = comments, timestamp = now\<rparr>)\<rparr>)))))"

subsection \<open>requestAggregation\<close>

text \<open>\<^verbatim>\<open>x++\<close> on a \<^verbatim>\<open>uint256\<close>: panics at the maximum.\<close>

definition checkedInc :: "nat \<Rightarrow> error + nat" where
  "checkedInc n = (if n < UINT256_MAX then Inr (n + 1) else Inl Panic)"

text \<open>
  The first loop, from \<open>i\<close> on:
  \<^verbatim>\<open>for (uint i = 1; i <= feedbackCount; i++) if (feedbacks[i].executive == msg.sender) feedbackCountForExec++;\<close>
\<close>

function countFeedback :: "state \<Rightarrow> address \<Rightarrow> nat \<Rightarrow> nat \<Rightarrow> error + nat" where
  "countFeedback s sender i n =
     (if i \<le> feedbackCount s then
        (case (if executive (feedbacks s i) = sender then checkedInc n else Inr n) of
           Inl e \<Rightarrow> Inl e
         | Inr n' \<Rightarrow>
             (if i < UINT256_MAX then countFeedback s sender (i + 1) n' else Inl Panic))
      else Inr n)"
  by pat_completeness auto
termination
  by (relation "measure (\<lambda>(s, sender, i, n). feedbackCount s + 1 - i)") auto

text \<open>
  \<^verbatim>\<open>ciphertexts[index++] = v\<close> on the pair of the memory array and \<^verbatim>\<open>index\<close>: the write is
  bounds-checked and the increment is checked.
\<close>

fun storeNext :: "bytes32 list \<times> nat \<Rightarrow> bytes32 \<Rightarrow> error + (bytes32 list \<times> nat)" where
  "storeNext (ciphertexts, index) v =
     (if index < UINT256_MAX \<and> index < length ciphertexts
      then Inr (ciphertexts[index := v], index + 1) else Inl Panic)"

text \<open>The inner loop over the five categories of one record, from \<open>j\<close> on.\<close>

function collectCategories ::
  "FeedbackCategory array5 \<Rightarrow> nat \<Rightarrow> bytes32 list \<times> nat \<Rightarrow> error + (bytes32 list \<times> nat)" where
  "collectCategories cats j st =
     (if j < 5 then
        (case index5 cats j of
           None \<Rightarrow> Inl Panic
         | Some c \<Rightarrow>
            (case storeNext st (toBytes32 (encryptedScore c)) of
               Inl e \<Rightarrow> Inl e
             | Inr st1 \<Rightarrow>
                (case storeNext st1 (toBytes32 (encryptedWeight c)) of
                   Inl e \<Rightarrow> Inl e
                 | Inr st2 \<Rightarrow> collectCategories cats (j + 1) st2)))
      else Inr st)"
  by pat_completeness auto
termination
  by (relation "measure (\<lambda>(cats, j, st). 5 - j)") auto

text \<open>The eleven writes for one record: the inner loop, then the comment handle.\<close>

definition collectRecord ::
  "EncryptedFeedback \<Rightarrow> bytes32 list \<times> nat \<Rightarrow> error + (bytes32 list \<times> nat)" where
  "collectRecord fb st =
     (case collectCategories (categories fb) 0 st of
        Inl e \<Rightarrow> Inl e
      | Inr st1 \<Rightarrow> storeNext st1 (toBytes32 (encryptedComments fb)))"

text \<open>The second loop over all records, from \<open>i\<close> on.\<close>

function collectFeedback ::
  "state \<Rightarrow> address \<Rightarrow> nat \<Rightarrow> bytes32 list \<times> nat \<Rightarrow> error + (bytes32 list \<times> nat)" where
  "collectFeedback s sender i st =
     (if i \<le> feedbackCount s then
        (case (if executive (feedbacks s i) = sender then collectRecord (feedbacks s i) st
               else Inr st) of
           Inl e \<Rightarrow> Inl e
         | Inr st' \<Rightarrow>
             (if i < UINT256_MAX then collectFeedback s sender (i + 1) st' else Inl Panic))
      else Inr st)"
  by pat_completeness auto
termination
  by (relation "measure (\<lambda>(s, sender, i, st). feedbackCount s + 1 - i)") auto

text \<open>
  \<^verbatim>\<open>onlyExecutive\<close>, the \<^verbatim>\<open>require\<close> on the report, the count, the threshold, the allocation of
  \<^verbatim>\<open>feedbackCountForExec * 11\<close> zero words (a checked product), the collection, the request to
  the coprocessor and the event. Nothing is written to storage.
\<close>

definition requestAggregation :: "address \<Rightarrow> state \<Rightarrow> error + state" where
  "requestAggregation sender s =
     (if \<not> isExecutive s sender then Inl (Require ''Not executive'')
      else if isAggregated (reports s sender) then Inl (Require ''Already aggregated'')
      else
        (case countFeedback s sender 1 0 of
           Inl e \<Rightarrow> Inl e
         | Inr feedbackCountForExec \<Rightarrow>
            (if \<not> feedbackCountForExec \<ge> MIN_REVIEWERS
             then Inl (Require ''Insufficient feedback'')
             else if feedbackCountForExec * 11 > UINT256_MAX then Inl Panic
             else
               (case collectFeedback s sender 1 (replicate (feedbackCountForExec * 11) 0, 0) of
                  Inl e \<Rightarrow> Inl e
                | Inr (ciphertexts, index) \<Rightarrow>
                    Inr (emit (AggregationRequested sender)
                          (issueRequest sender ciphertexts AggregateFeedbackSelector s))))))"

subsection \<open>aggregateFeedback\<close>

text \<open>The loop \<^verbatim>\<open>for (uint i = 0; i < 5; i++) encryptedAvgs[i] = FHE.asEuint32(avgScores[i])\<close>.\<close>

function encryptAvgs ::
  "library \<Rightarrow> uint32 array5 \<Rightarrow> nat \<Rightarrow> euint32 array5 \<Rightarrow> error + euint32 array5" where
  "encryptAvgs L avgScores i encryptedAvgs =
     (if i < 5 then
        (case index5 avgScores i of
           None \<Rightarrow> Inl Panic
         | Some v \<Rightarrow>
            (case update5 encryptedAvgs i (asEuint32 L v) of
               None \<Rightarrow> Inl Panic
             | Some encryptedAvgs' \<Rightarrow> encryptAvgs L avgScores (i + 1) encryptedAvgs'))
      else Inr encryptedAvgs)"
  by pat_completeness auto
termination
  by (relation "measure (\<lambda>(L, avgScores, i, acc). 5 - i)") auto

text \<open>
  The callback has no modifier. It checks the proof, decodes, takes \<^verbatim>\<open>msg.sender\<close> as the
  executive and assigns the whole report; \<open>requestId\<close> goes to the proof check and nowhere else.
\<close>

definition aggregateFeedback ::
  "library \<Rightarrow> address \<Rightarrow> nat \<Rightarrow> bytes \<Rightarrow> bytes \<Rightarrow> state \<Rightarrow> error + state" where
  "aggregateFeedback L sender requestId results proof s =
     (if \<not> checkSignatures L requestId results proof then Inl SignaturesRejected
      else
        (case abiDecode L results of
           None \<Rightarrow> Inl DecodeFailed
         | Some (avgScores, overallScore) \<Rightarrow>
            (let ex = sender in
              (case encryptAvgs L avgScores 0 zeroHandles of
                 Inl e \<Rightarrow> Inl e
               | Inr encryptedAvgs \<Rightarrow>
                   Inr (emit (ReportGenerated ex)
                         (s\<lparr>reports := (reports s)(ex :=
                              \<lparr>encryptedAvgScores = encryptedAvgs,
                               encryptedOverallScore = asEuint32 L overallScore,
                               isAggregated = True\<rparr>)\<rparr>))))))"

subsection \<open>Decryption\<close>

text \<open>\<^verbatim>\<open>ciphertexts[i] = v\<close> on a memory array, bounds-checked.\<close>

definition storeAt :: "bytes32 list \<Rightarrow> nat \<Rightarrow> bytes32 \<Rightarrow> error + bytes32 list" where
  "storeAt ciphertexts i v =
     (if i < length ciphertexts then Inr (ciphertexts[i := v]) else Inl Panic)"

text \<open>The loop \<^verbatim>\<open>for (uint i = 0; i < 5; i++) ciphertexts[i] = FHE.toBytes32(report.encryptedAvgScores[i])\<close>.\<close>

function reportHandles ::
  "LeadershipReport \<Rightarrow> nat \<Rightarrow> bytes32 list \<Rightarrow> error + bytes32 list" where
  "reportHandles report i ciphertexts =
     (if i < 5 then
        (case index5 (encryptedAvgScores report) i of
           None \<Rightarrow> Inl Panic
         | Some h \<Rightarrow>
            (case storeAt ciphertexts i (toBytes32 h) of
               Inl e \<Rightarrow> Inl e
             | Inr ciphertexts' \<Rightarrow> reportHandles report (i + 1) ciphertexts'))
      else Inr ciphertexts)"
  by pat_completeness auto
termination
  by (relation "measure (\<lambda>(report, i, ciphertexts). 5 - i)") auto

definition requestReportDecryption :: "address \<Rightarrow> state \<Rightarrow> error + state" where
  "requestReportDecryption sender s =
     (if \<not> isExecutive s sender then Inl (Require ''Not executive'')
      else if \<not> isAggregated (reports s sender) then Inl (Require ''Report not ready'')
      else
        (let report = reports s sender in
          (case reportHandles report 0 (replicate 6 0) of
             Inl e \<Rightarrow> Inl e
           | Inr ciphertexts5 \<Rightarrow>
              (case storeAt ciphertexts5 5 (toBytes32 (encryptedOverallScore report)) of
                 Inl e \<Rightarrow> Inl e
               | Inr ciphertexts \<Rightarrow>
                   Inr (issueRequest sender ciphertexts DecryptReportSelector s)))))"

text \<open>The decryption callback checks the proof, decodes, and emits an event.\<close>

definition decryptReport ::
  "library \<Rightarrow> address \<Rightarrow> nat \<Rightarrow> bytes \<Rightarrow> bytes \<Rightarrow> state \<Rightarrow> error + state" where
  "decryptReport L sender requestId cleartexts proof s =
     (if \<not> checkSignatures L requestId cleartexts proof then Inl SignaturesRejected
      else
        (case abiDecode L cleartexts of
           None \<Rightarrow> Inl DecodeFailed
         | Some (avgScores, overallScore) \<Rightarrow> Inr (emit (ReportDecrypted sender) s)))"

subsection \<open>Read accessors\<close>

text \<open>A \<^verbatim>\<open>view\<close> function returns a value and no state. The first one has no modifier.\<close>

definition getEncryptedCategoryScore :: "address \<Rightarrow> address \<Rightarrow> nat \<Rightarrow> state \<Rightarrow> error + euint32" where
  "getEncryptedCategoryScore sender ex category s =
     (if \<not> category < 5 then Inl (Require ''Invalid category'')
      else
        (case index5 (encryptedAvgScores (reports s ex)) category of
           None \<Rightarrow> Inl Panic
         | Some h \<Rightarrow> Inr h))"

definition getEncryptedOverallScore :: "address \<Rightarrow> address \<Rightarrow> state \<Rightarrow> error + euint32" where
  "getEncryptedOverallScore sender ex s =
     (if \<not> isExecutive s sender then Inl (Require ''Not executive'')
      else Inr (encryptedOverallScore (reports s ex)))"

subsection \<open>Transactions\<close>

text \<open>
  Every function of the contract as one call. \<open>exec\<close> gives the value the call
  returns (\<open>Void\<close> for a function without a \<^verbatim>\<open>returns\<close> clause) and the state after it; \<open>step\<close>
  is the state a transaction leaves behind, the old one when the call reverts. The getters
  that Solidity generates for the public state variables only read storage and are left out.
\<close>

datatype call =
    RegisterExecutive
  | ApproveReviewer address
  | SubmitFeedback address "euint32 array5" "euint32 array5" euint32
  | RequestAggregation
  | AggregateFeedback nat bytes bytes
  | RequestReportDecryption
  | DecryptReport nat bytes bytes
  | GetEncryptedCategoryScore address nat
  | GetEncryptedOverallScore address
  | SetFeedbackPeriod nat

datatype retval = Void | Handle euint32

definition updating :: "error + state \<Rightarrow> error + (retval \<times> state)" where
  "updating r = (case r of Inl e \<Rightarrow> Inl e | Inr s' \<Rightarrow> Inr (Void, s'))"

definition viewing :: "state \<Rightarrow> error + euint32 \<Rightarrow> error + (retval \<times> state)" where
  "viewing s r = (case r of Inl e \<Rightarrow> Inl e | Inr h \<Rightarrow> Inr (Handle h, s))"

fun exec :: "library \<Rightarrow> address \<Rightarrow> nat \<Rightarrow> call \<Rightarrow> state \<Rightarrow> error + (retval \<times> state)" where
  "exec L sender now RegisterExecutive s = updating (registerExecutive sender s)"
| "exec L sender now (ApproveReviewer rv) s = updating (approveReviewer sender rv s)"
| "exec L sender now (SubmitFeedback ex sc w c) s = updating (submitFeedback sender now ex sc w c s)"
| "exec L sender now RequestAggregation s = updating (requestAggregation sender s)"
| "exec L sender now (AggregateFeedback rid res prf) s =
     updating (aggregateFeedback L sender rid res prf s)"
| "exec L sender now RequestReportDecryption s = updating (requestReportDecryption sender s)"
| "exec L sender now (DecryptReport rid clr prf) s =
     updating (decryptReport L sender rid clr prf s)"
| "exec L sender now (GetEncryptedCategoryScore ex category) s =
     viewing s (getEncryptedCategoryScore sender ex category s)"
| "exec L sender now (GetEncryptedOverallScore ex) s =
     viewing s (getEncryptedOverallScore sender ex s)"
| "exec L sender now (SetFeedbackPeriod p) s = updating (setFeedbackPeriod sender p s)"

definition step :: "library \<Rightarrow> address \<Rightarrow> nat \<Rightarrow> call \<Rightarrow> state \<Rightarrow> state" where
  "step L sender now c s = (case exec L sender now c s of Inl e \<Rightarrow> s | Inr (r, s') \<Rightarrow> s')"

text \<open>A history: transactions (sender, timestamp, call) applied oldest first.\<close>

fun run :: "library \<Rightarrow> (address \<times> nat \<times> call) list \<Rightarrow> state \<Rightarrow> state" where
  "run L [] s = s"
| "run L ((sender, now, c) # txs) s = run L txs (step L sender now c s)"

section \<open>Notions of the specification\<close>

text \<open>
  The handle list the specification describes for one executive: for each of the executive's
  records in record-id order, the (score, weight) pair of each of the five categories,
  then the comment handle.
\<close>

definition categoryHandles :: "FeedbackCategory \<Rightarrow> bytes32 list" where
  "categoryHandles c = [toBytes32 (encryptedScore c), toBytes32 (encryptedWeight c)]"

definition recordHandles :: "EncryptedFeedback \<Rightarrow> bytes32 list" where
  "recordHandles fb =
     concat (map categoryHandles (list5 (categories fb))) @ [toBytes32 (encryptedComments fb)]"

definition recordsOf :: "state \<Rightarrow> address \<Rightarrow> nat list" where
  "recordsOf s e = filter (\<lambda>i. executive (feedbacks s i) = e) [1..<Suc (feedbackCount s)]"

definition handleList :: "state \<Rightarrow> address \<Rightarrow> bytes32 list" where
  "handleList s e = concat (map (\<lambda>i. recordHandles (feedbacks s i)) (recordsOf s e))"

text \<open>The categories of a record built from the two argument arrays, entry by entry.\<close>

fun pairCategories :: "euint32 array5 \<Rightarrow> euint32 array5 \<Rightarrow> FeedbackCategory array5" where
  "pairCategories (Array5 s0 s1 s2 s3 s4) (Array5 w0 w1 w2 w3 w4) =
     Array5 \<lparr>encryptedScore = s0, encryptedWeight = w0\<rparr>
            \<lparr>encryptedScore = s1, encryptedWeight = w1\<rparr>
            \<lparr>encryptedScore = s2, encryptedWeight = w2\<rparr>
            \<lparr>encryptedScore = s3, encryptedWeight = w3\<rparr>
            \<lparr>encryptedScore = s4, encryptedWeight = w4\<rparr>"

fun map5 :: "('a \<Rightarrow> 'b) \<Rightarrow> 'a array5 \<Rightarrow> 'b array5" where
  "map5 f (Array5 a0 a1 a2 a3 a4) = Array5 (f a0) (f a1) (f a2) (f a3) (f a4)"

text \<open>The report an accepted aggregation callback writes for decoded values.\<close>

definition decodedReport :: "library \<Rightarrow> uint32 array5 \<Rightarrow> uint32 \<Rightarrow> LeadershipReport" where
  "decodedReport L avgScores overallScore =
     \<lparr>encryptedAvgScores = map5 (asEuint32 L) avgScores,
      encryptedOverallScore = asEuint32 L overallScore, isAggregated = True\<rparr>"

text \<open>
  The specification's Pending status, read off the outputs of the contract, which keeps no
  status of its own: \<open>e\<close> has issued an aggregation request (the event
  \<open>AggregationRequested e\<close>) and no aggregation callback has been accepted since (no
  \<open>ReportGenerated\<close> event follows it).
\<close>

fun isReportGenerated :: "event \<Rightarrow> bool" where
  "isReportGenerated (ReportGenerated a) = True"
| "isReportGenerated ev = False"

fun outstandingIn :: "address \<Rightarrow> event list \<Rightarrow> bool" where
  "outstandingIn e [] = False"
| "outstandingIn e (ev # evs) =
     ((ev = AggregationRequested e \<and> \<not> list_ex isReportGenerated evs) \<or> outstandingIn e evs)"

definition pendingAggregation :: "state \<Rightarrow> address \<Rightarrow> bool" where
  "pendingAggregation s e = outstandingIn e (events s)"

text \<open>The error classes of the specification, on the contract's revert messages.\<close>

definition authorizationError :: "error \<Rightarrow> bool" where
  "authorizationError e =
     (e = Require ''Not reviewer'' \<or> e = Require ''Not executive''
      \<or> e = Require ''Invalid executive'')"

definition preconditionError :: "error \<Rightarrow> bool" where
  "preconditionError e =
     (e = Require ''Already aggregated'' \<or> e = Require ''Insufficient feedback''
      \<or> e = Require ''Report not ready'')"

text \<open>
  The collecting loop, on an array of which the first \<open>k + length vs\<close> cells are decided:
  \<open>filled xs k vs\<close> is the array \<open>xs\<close> with \<open>vs\<close> written from cell \<open>k\<close> on, and the index
  after them.
\<close>

definition filled :: "bytes32 list \<Rightarrow> nat \<Rightarrow> bytes32 list \<Rightarrow> bytes32 list \<times> nat" where
  "filled xs k vs = (take k xs @ vs @ drop (k + length vs) xs, k + length vs)"

section \<open>A deterministic library stub and a sample history\<close>

text \<open>
  A stub of the library for concrete runs: the proof of a payload for a request is the
  request id followed by the payload, a payload is six bytes (five averages, then the overall
  score), and the handle of a value is the value itself.
\<close>

definition stubProof :: "nat \<Rightarrow> bytes \<Rightarrow> bytes" where
  "stubProof requestId payload = of_nat requestId # payload"

fun stubDecode :: "bytes \<Rightarrow> (uint32 array5 \<times> uint32) option" where
  "stubDecode [a0, a1, a2, a3, a4, ov] =
     Some (Array5 (ucast a0) (ucast a1) (ucast a2) (ucast a3) (ucast a4), ucast ov)"
| "stubDecode bs = None"

definition stubLibrary :: library where
  "stubLibrary =
     \<lparr>checkSignatures = (\<lambda>requestId payload prf. prf = stubProof requestId payload),
      abiDecode = stubDecode,
      asEuint32 = (\<lambda>v. Euint32 (ucast v))\<rparr>"

text \<open>
  Two executives, five reviewers and an address with no role. Six records are submitted:
  records 1, 2, 4, 5 and 6 are about \<open>execA\<close>, record 3 is about \<open>execB\<close>.
\<close>

definition execA :: address where "execA = 10"
definition execB :: address where "execB = 11"
definition outsider :: address where "outsider = 99"

fun handles5 :: "nat \<Rightarrow> euint32 array5" where
  "handles5 b =
     Array5 (Euint32 (of_nat b)) (Euint32 (of_nat (b + 1))) (Euint32 (of_nat (b + 2)))
       (Euint32 (of_nat (b + 3))) (Euint32 (of_nat (b + 4)))"

definition setupTxs :: "(address \<times> nat \<times> call) list" where
  "setupTxs =
     [(execA, 1, RegisterExecutive), (execB, 2, RegisterExecutive),
      (execA, 3, ApproveReviewer 1), (execA, 3, ApproveReviewer 2),
      (execA, 3, ApproveReviewer 3), (execA, 3, ApproveReviewer 4),
      (execA, 3, ApproveReviewer 5)]"

definition feedbackTxs :: "(address \<times> nat \<times> call) list" where
  "feedbackTxs =
     [(1, 11, SubmitFeedback execA (handles5 110) (handles5 120) (Euint32 130)),
      (2, 12, SubmitFeedback execA (handles5 210) (handles5 220) (Euint32 230)),
      (1, 13, SubmitFeedback execB (handles5 310) (handles5 320) (Euint32 330)),
      (3, 14, SubmitFeedback execA (handles5 410) (handles5 420) (Euint32 430)),
      (4, 15, SubmitFeedback execA (handles5 510) (handles5 520) (Euint32 530)),
      (5, 16, SubmitFeedback execA (handles5 610) (handles5 620) (Euint32 630))]"

text \<open>The state after registration, after the fourth and after the last submission.\<close>

definition registered :: state where
  "registered = run stubLibrary setupTxs deployed"

definition collecting :: state where
  "collecting = run stubLibrary (take 5 feedbackTxs) registered"

definition collected :: state where
  "collected = run stubLibrary feedbackTxs registered"

text \<open>\<open>execA\<close> requests aggregation: request 0 goes to the coprocessor.\<close>

definition requested :: state where
  "requested = step stubLibrary execA 20 RequestAggregation collected"

definition payload1 :: bytes where
  "payload1 = [80, 70, 90, 60, 100, 80]"

definition payload2 :: bytes where
  "payload2 = [1, 2, 3, 4, 5, 3]"

text \<open>\<open>execA\<close> delivers the result of request 0 with its proof.\<close>

definition aggregated :: state where
  "aggregated =
     step stubLibrary execA 30 (AggregateFeedback 0 payload1 (stubProof 0 payload1)) requested"

section \<open>The loops in closed form\<close>

declare initCategories.simps [simp del] countFeedback.simps [simp del]
  collectCategories.simps [simp del] collectFeedback.simps [simp del]
  encryptAvgs.simps [simp del] reportHandles.simps [simp del]

lemma initCategories_total:
  "initCategories sc w 0 cats = Inr (pairCategories sc w)"
  by (cases sc; cases w; cases cats) (simp add: initCategories.simps)

lemma encryptAvgs_total:
  "encryptAvgs L avgScores 0 acc = Inr (map5 (asEuint32 L) avgScores)"
  by (cases avgScores; cases acc) (simp add: encryptAvgs.simps)

lemma reportHandles_total:
  "reportHandles report 0 (replicate 6 0) =
     Inr (map toBytes32 (list5 (encryptedAvgScores report)) @ [0])"
  by (cases "encryptedAvgScores report")
     (simp add: reportHandles.simps storeAt_def numeral_eq_Suc)

lemma UINT256_MAX_pos: "0 < UINT256_MAX"
  by (simp add: UINT256_MAX_def)

text \<open>The counting loop returns the number of the executive's records from \<open>i\<close> on.\<close>

lemma countFeedback_eq:
  "n < i \<Longrightarrow> feedbackCount s < UINT256_MAX \<Longrightarrow>
   countFeedback s e i n =
     Inr (n + length (filter (\<lambda>k. executive (feedbacks s k) = e) [i..<Suc (feedbackCount s)]))"
proof (induction s e i n rule: countFeedback.induct)
  case (1 s sender i n)
  show ?case
  proof (cases "i \<le> feedbackCount s")
    case False
    then show ?thesis by (simp add: countFeedback.simps)
  next
    case True
    then have lt: "i < UINT256_MAX" and nlt: "n < UINT256_MAX"
      using "1.prems" by auto
    have up: "[i..<Suc (feedbackCount s)] = i # [Suc i..<Suc (feedbackCount s)]"
      using True by (simp add: upt_conv_Cons)
    show ?thesis
    proof (cases "executive (feedbacks s i) = sender")
      case True
      have "countFeedback s sender (i + 1) (n + 1) =
          Inr (n + 1 + length (filter (\<lambda>k. executive (feedbacks s k) = sender)
             [i + 1..<Suc (feedbackCount s)]))"
        using "1.IH" [of "n + 1"] \<open>i \<le> feedbackCount s\<close> True lt nlt "1.prems"
        by (simp add: checkedInc_def)
      then show ?thesis
        using \<open>i \<le> feedbackCount s\<close> True lt nlt up
        by (simp add: countFeedback.simps [of s sender i n] checkedInc_def)
    next
      case False
      have "countFeedback s sender (i + 1) n =
          Inr (n + length (filter (\<lambda>k. executive (feedbacks s k) = sender)
             [i + 1..<Suc (feedbackCount s)]))"
        using "1.IH" [of n] \<open>i \<le> feedbackCount s\<close> False lt "1.prems"
        by simp
      then show ?thesis
        using \<open>i \<le> feedbackCount s\<close> False lt up
        by (simp add: countFeedback.simps [of s sender i n])
    qed
  qed
qed

text \<open>The counting loop only returns when the record counter is below the maximum.\<close>

lemma countFeedback_returns:
  "countFeedback s e i n = Inr m \<Longrightarrow> i \<le> feedbackCount s \<Longrightarrow> feedbackCount s < UINT256_MAX"
proof (induction s e i n rule: countFeedback.induct)
  case (1 s sender i n)
  from "1.prems" obtain n' where
    n': "(if executive (feedbacks s i) = sender then checkedInc n else Inr n) = Inr n'"
    and lt: "i < UINT256_MAX"
    and rec: "countFeedback s sender (i + 1) n' = Inr m"
    by (simp add: countFeedback.simps [of s sender i n] split: sum.splits if_splits)
  show ?case
  proof (cases "i + 1 \<le> feedbackCount s")
    case True
    then show ?thesis
      using "1.IH" [OF "1.prems"(2) n' lt rec] by simp
  next
    case False
    then have "i = feedbackCount s" using "1.prems"(2) by simp
    then show ?thesis using lt by simp
  qed
qed

text \<open>The collecting loop writes the handle list of the specification.\<close>

lemma storeNext_filled:
  assumes "k + length vs < length xs" and "length xs \<le> UINT256_MAX"
  shows "storeNext (filled xs k vs) v = Inr (filled xs k (vs @ [v]))"
proof -
  have "(take k xs @ vs @ drop (k + length vs) xs)[k + length vs := v] =
        take k xs @ vs @ (drop (k + length vs) xs)[0 := v]"
    using assms(1) by (simp add: list_update_append)
  also have "(drop (k + length vs) xs)[0 := v] = v # drop (Suc (k + length vs)) xs"
    using assms(1) by (cases "drop (k + length vs) xs") (auto simp: drop_Suc drop_tl)
  finally show ?thesis
    using assms by (simp add: filled_def)
qed

lemma length_recordHandles: "length (recordHandles fb) = 11"
  by (cases "categories fb") (simp add: recordHandles_def categoryHandles_def)

lemma collectCategories_filled:
  assumes "k + length vs + 10 \<le> length xs" and "length xs \<le> UINT256_MAX"
  shows "collectCategories cats 0 (filled xs k vs) =
           Inr (filled xs k (vs @ concat (map categoryHandles (list5 cats))))"
proof (cases cats)
  case (Array5 c0 c1 c2 c3 c4)
  show ?thesis
    using assms unfolding Array5
    by (simp add: collectCategories.simps storeNext_filled categoryHandles_def)
qed

lemma collectRecord_filled:
  assumes "k + length vs + 11 \<le> length xs" and "length xs \<le> UINT256_MAX"
  shows "collectRecord fb (filled xs k vs) = Inr (filled xs k (vs @ recordHandles fb))"
proof -
  have "length (concat (map categoryHandles (list5 (categories fb)))) = 10"
    by (cases "categories fb") (simp add: categoryHandles_def)
  then show ?thesis
    using assms
    by (simp add: collectRecord_def collectCategories_filled storeNext_filled recordHandles_def)
qed

lemma collectFeedback_filled:
  assumes "feedbackCount s < UINT256_MAX" and "length xs \<le> UINT256_MAX"
  shows "k + length vs +
           11 * length (filter (\<lambda>j. executive (feedbacks s j) = e) [i..<Suc (feedbackCount s)])
             \<le> length xs \<Longrightarrow>
         collectFeedback s e i (filled xs k vs) =
           Inr (filled xs k (vs @ concat (map (\<lambda>j. recordHandles (feedbacks s j))
                  (filter (\<lambda>j. executive (feedbacks s j) = e) [i..<Suc (feedbackCount s)]))))"
proof (induction "Suc (feedbackCount s) - i" arbitrary: i vs)
  case 0
  then have "\<not> i \<le> feedbackCount s" by simp
  then show ?case by (simp add: collectFeedback.simps [of s e i])
next
  case (Suc d)
  then have le: "i \<le> feedbackCount s" and d: "d = Suc (feedbackCount s) - (i + 1)"
    by simp_all
  have lt: "i < UINT256_MAX" using le assms(1) by simp
  have up: "[i..<Suc (feedbackCount s)] = i # [i + 1..<Suc (feedbackCount s)]"
    using le by (simp add: upt_conv_Cons)
  show ?case
  proof (cases "executive (feedbacks s i) = e")
    case True
    have room: "k + length (vs @ recordHandles (feedbacks s i)) +
        11 * length (filter (\<lambda>j. executive (feedbacks s j) = e) [i + 1..<Suc (feedbackCount s)])
          \<le> length xs"
      using Suc.prems True up by (simp add: length_recordHandles)
    have "collectRecord (feedbacks s i) (filled xs k vs) =
        Inr (filled xs k (vs @ recordHandles (feedbacks s i)))"
      using Suc.prems True up assms(2) by (intro collectRecord_filled) simp_all
    then show ?thesis
      using Suc.hyps(1) [OF d room] True le lt up
      by (simp add: collectFeedback.simps [of s e i])
  next
    case False
    have room: "k + length vs +
        11 * length (filter (\<lambda>j. executive (feedbacks s j) = e) [i + 1..<Suc (feedbackCount s)])
          \<le> length xs"
      using Suc.prems False up by simp
    show ?thesis
      using Suc.hyps(1) [OF d room] False le lt up
      by (simp add: collectFeedback.simps [of s e i])
  qed
qed

lemma length_handleList: "length (handleList s e) = 11 * length (recordsOf s e)"
  by (simp add: handleList_def length_concat comp_def length_recordHandles sum_list_triv)

lemma collectFeedback_all:
  assumes "feedbackCount s < UINT256_MAX" and "length (recordsOf s e) * 11 \<le> UINT256_MAX"
  shows "collectFeedback s e 1 (replicate (length (recordsOf s e) * 11) 0, 0) =
           Inr (handleList s e, 11 * length (recordsOf s e))"
proof -
  let ?xs = "replicate (length (recordsOf s e) * 11) (0::bytes32)"
  have "collectFeedback s e 1 (filled ?xs 0 []) =
      Inr (filled ?xs 0 ([] @ handleList s e))"
    unfolding handleList_def recordsOf_def
    using assms by (intro collectFeedback_filled) (simp_all add: recordsOf_def)
  then show ?thesis
    by (simp add: filled_def length_handleList)
qed

lemma countFeedback_all:
  "feedbackCount s < UINT256_MAX \<Longrightarrow> countFeedback s e 1 0 = Inr (length (recordsOf s e))"
  by (simp add: countFeedback_eq recordsOf_def del: One_nat_def)

section \<open>The functions in closed form\<close>

lemma submitFeedback_eq:
  "submitFeedback sender now ex sc w c s =
     (if \<not> isReviewer s sender then Inl (Require ''Not reviewer'')
      else if \<not> isExecutive s ex then Inl (Require ''Invalid executive'')
      else if feedbackCount s \<ge> UINT256_MAX then Inl Panic
      else Inr (s\<lparr>feedbackCount := feedbackCount s + 1,
                  feedbacks := (feedbacks s)(feedbackCount s + 1 :=
                    \<lparr>executive = ex, reviewer = sender, categories = pairCategories sc w,
                     encryptedComments = c, timestamp = now\<rparr>),
                  events := events s @ [FeedbackSubmitted (feedbackCount s + 1) ex]\<rparr>))"
  by (simp add: submitFeedback_def initCategories_total emit_def Let_def)

lemma requestAggregation_succeeds:
  assumes "isExecutive s e" and "\<not> isAggregated (reports s e)"
    and "MIN_REVIEWERS \<le> length (recordsOf s e)"
    and "feedbackCount s < UINT256_MAX" and "length (recordsOf s e) * 11 \<le> UINT256_MAX"
  shows "requestAggregation e s =
           Inr (emit (AggregationRequested e)
                 (issueRequest e (handleList s e) AggregateFeedbackSelector s))"
  using assms
  by (simp add: requestAggregation_def countFeedback_all collectFeedback_all del: One_nat_def)

lemma requestAggregation_Inr_D:
  assumes "requestAggregation e s = Inr s'"
  shows "isExecutive s e \<and> \<not> isAggregated (reports s e)
         \<and> MIN_REVIEWERS \<le> length (recordsOf s e)
         \<and> feedbackCount s < UINT256_MAX \<and> length (recordsOf s e) * 11 \<le> UINT256_MAX
         \<and> s' = emit (AggregationRequested e)
                  (issueRequest e (handleList s e) AggregateFeedbackSelector s)"
proof -
  from assms have ex: "isExecutive s e" and na: "\<not> isAggregated (reports s e)"
    by (simp_all add: requestAggregation_def split: if_splits)
  from assms ex na obtain n where cnt: "countFeedback s e 1 0 = Inr n"
    by (simp add: requestAggregation_def split: sum.splits)
  have range: "feedbackCount s < UINT256_MAX"
  proof (cases "1 \<le> feedbackCount s")
    case True
    then show ?thesis using countFeedback_returns [OF cnt] by simp
  next
    case False
    then show ?thesis using UINT256_MAX_pos by simp
  qed
  then have n: "n = length (recordsOf s e)"
    using cnt by (simp add: countFeedback_all del: One_nat_def)
  from assms ex na cnt n have min: "MIN_REVIEWERS \<le> length (recordsOf s e)"
    and prod: "length (recordsOf s e) * 11 \<le> UINT256_MAX"
    by (simp_all add: requestAggregation_def split: if_splits)
  show ?thesis
    using assms ex na min range prod
    by (simp add: requestAggregation_succeeds)
qed

lemma aggregateFeedback_accepted:
  assumes "checkSignatures L requestId results prf"
    and "abiDecode L results = Some (avgScores, overallScore)"
  shows "aggregateFeedback L sender requestId results prf s =
           Inr (emit (ReportGenerated sender)
                 (s\<lparr>reports := (reports s)(sender := decodedReport L avgScores overallScore)\<rparr>))"
  using assms
  by (simp add: aggregateFeedback_def encryptAvgs_total decodedReport_def)

lemma aggregateFeedback_Inr_D:
  assumes "aggregateFeedback L sender requestId results prf s = Inr s'"
  shows "checkSignatures L requestId results prf \<and>
         (\<exists>avgScores overallScore. abiDecode L results = Some (avgScores, overallScore) \<and>
            s' = emit (ReportGenerated sender)
                  (s\<lparr>reports := (reports s)(sender := decodedReport L avgScores overallScore)\<rparr>))"
  using assms
  by (auto simp add: aggregateFeedback_def encryptAvgs_total decodedReport_def
      split: if_splits option.splits)

lemma requestReportDecryption_eq:
  "requestReportDecryption sender s =
     (if \<not> isExecutive s sender then Inl (Require ''Not executive'')
      else if \<not> isAggregated (reports s sender) then Inl (Require ''Report not ready'')
      else Inr (issueRequest sender
                 (map toBytes32 (list5 (encryptedAvgScores (reports s sender))) @
                  [toBytes32 (encryptedOverallScore (reports s sender))])
                 DecryptReportSelector s))"
  by (cases "encryptedAvgScores (reports s sender)")
     (simp add: requestReportDecryption_def reportHandles_total storeAt_def Let_def)

lemma decryptReport_Inr_D:
  "decryptReport L sender requestId cleartexts prf s = Inr s' \<Longrightarrow>
     s' = emit (ReportDecrypted sender) s"
  by (auto simp add: decryptReport_def split: if_splits option.splits)

text \<open>What a transaction can change: the record log, the reports.\<close>

lemma exec_feedbacks:
  assumes "exec L sender now c s = Inr (r, s')" and "1 \<le> i" and "i \<le> feedbackCount s"
  shows "feedbacks s' i = feedbacks s i"
  using assms
  by (cases c)
     (auto simp add: updating_def viewing_def submitFeedback_eq registerExecutive_def
        approveReviewer_def setFeedbackPeriod_def requestReportDecryption_eq issueRequest_def
        emit_def
      split: sum.splits if_splits
      dest!: requestAggregation_Inr_D aggregateFeedback_Inr_D decryptReport_Inr_D)

lemma exec_feedbackCount:
  assumes "exec L sender now c s = Inr (r, s')"
  shows "feedbackCount s' = feedbackCount s \<or>
         (feedbackCount s' = feedbackCount s + 1 \<and> (\<exists>ex sc w cm. c = SubmitFeedback ex sc w cm))"
  using assms
  by (cases c)
     (auto simp add: updating_def viewing_def submitFeedback_eq registerExecutive_def
        approveReviewer_def setFeedbackPeriod_def requestReportDecryption_eq issueRequest_def
        emit_def
      split: sum.splits if_splits
      dest!: requestAggregation_Inr_D aggregateFeedback_Inr_D decryptReport_Inr_D)

section \<open>The sample history, evaluated\<close>

lemmas history_defs =
  registered_def collecting_def collected_def setupTxs_def feedbackTxs_def step_def
  updating_def registerExecutive_def approveReviewer_def submitFeedback_eq deployed_def
  zeroReport_def UINT256_MAX_def execA_def execB_def outsider_def

lemma zeroReport_not_aggregated [simp]: "\<not> isAggregated zeroReport"
  by (simp add: zeroReport_def)

lemma registered_roles:
  "isReviewer registered 1" "isExecutive registered execA" "feedbackCount registered = 0"
  by (simp_all add: history_defs)

lemma collecting_facts:
  "isExecutive collecting execA" "\<not> isAggregated (reports collecting execA)"
  "feedbackCount collecting = 5" "recordsOf collecting execA = [1, 2, 4, 5]"
  by (simp_all add: history_defs recordsOf_def)

lemma collected_facts:
  "isExecutive collected execA" "\<not> isAggregated (reports collected execA)"
  "feedbackCount collected = 6" "recordsOf collected execA = [1, 2, 4, 5, 6]"
  "requests collected = []" "reports collected = (\<lambda>a. zeroReport)"
  by (simp_all add: history_defs recordsOf_def)

lemma collected_events:
  "events collected =
     [FeedbackSubmitted 1 execA, FeedbackSubmitted 2 execA, FeedbackSubmitted 3 execB,
      FeedbackSubmitted 4 execA, FeedbackSubmitted 5 execA, FeedbackSubmitted 6 execA]"
  by (simp add: history_defs)

lemma collected_handleList:
  "handleList collected execA =
     [110, 120, 111, 121, 112, 122, 113, 123, 114, 124, 130, 210, 220, 211, 221, 212, 222,
      213, 223, 214, 224, 230, 410, 420, 411, 421, 412, 422, 413, 423, 414, 424, 430, 510,
      520, 511, 521, 512, 522, 513, 523, 514, 524, 530, 610, 620, 611, 621, 612, 622, 613,
      623, 614, 624, 630]"
  unfolding handleList_def collected_facts
  by (simp add: history_defs recordHandles_def categoryHandles_def)

lemma requested_eq:
  "requested =
     emit (AggregationRequested execA)
       (issueRequest execA (handleList collected execA) AggregateFeedbackSelector collected)"
proof -
  have "requestAggregation execA collected =
      Inr (emit (AggregationRequested execA)
            (issueRequest execA (handleList collected execA) AggregateFeedbackSelector
              collected))"
    by (rule requestAggregation_succeeds)
       (simp_all add: collected_facts MIN_REVIEWERS_def UINT256_MAX_def)
  then show ?thesis
    by (simp add: requested_def step_def updating_def)
qed

lemma requested_facts:
  "isExecutive requested execA" "\<not> isAggregated (reports requested execA)"
  "feedbackCount requested = 6" "recordsOf requested execA = [1, 2, 4, 5, 6]"
  "reports requested = (\<lambda>a. zeroReport)"
  "map req_id (requests requested) = [0]" "map req_sender (requests requested) = [execA]"
  "events requested = events collected @ [AggregationRequested execA]"
  using collected_facts
  by (simp_all add: requested_eq emit_def issueRequest_def recordsOf_def)

lemma stub_accepts:
  "checkSignatures stubLibrary requestId payload (stubProof requestId payload)"
  by (simp add: stubLibrary_def)

lemma stub_decodes:
  "abiDecode stubLibrary payload1 = Some (Array5 80 70 90 60 100, 80)"
  "abiDecode stubLibrary payload2 = Some (Array5 1 2 3 4 5, 3)"
  by (simp_all add: stubLibrary_def payload1_def payload2_def)

lemma aggregated_eq:
  "aggregated =
     emit (ReportGenerated execA)
       (requested\<lparr>reports := (reports requested)(execA :=
          decodedReport stubLibrary (Array5 80 70 90 60 100) 80)\<rparr>)"
  by (simp add: aggregated_def step_def updating_def
      aggregateFeedback_accepted [OF stub_accepts stub_decodes(1)])

lemma aggregated_facts:
  "isExecutive aggregated execA" "isAggregated (reports aggregated execA)"
  "encryptedAvgScores (reports aggregated execA) =
     Array5 (Euint32 80) (Euint32 70) (Euint32 90) (Euint32 60) (Euint32 100)"
  using requested_facts
  by (simp_all add: aggregated_eq emit_def decodedReport_def stubLibrary_def)

section \<open>The claims\<close>

subsection \<open>The handle list of an aggregation request\<close>

lemma recordsOf_sorted: "sorted_wrt (<) (recordsOf s e)"
  unfolding recordsOf_def by (rule sorted_wrt_filter) (rule sorted_wrt_upt)

lemma recordsOf_set:
  "set (recordsOf s e) = {i. 1 \<le> i \<and> i \<le> feedbackCount s \<and> executive (feedbacks s i) = e}"
  by (auto simp add: recordsOf_def)

text \<open>
  Claim C7. When \<open>requestAggregation\<close> succeeds for an executive, it hands exactly one new
  request to the coprocessor, and the handle list of that request is \<open>handleList\<close>: for each
  record of the executive, in increasing record id (\<open>recordsOf\<close> lists exactly the ids between
  1 and the record count whose record names the executive, in increasing order), the five
  (score, weight) pairs in category order and then the comment handle. The list has 11
  handles per record, and each of its handles is a handle of a record of that executive.
\<close>

theorem requestAggregation_handle_list:
  assumes "requestAggregation e s = Inr s'"
  shows "\<exists>r. requests s' = requests s @ [r]
           \<and> req_handles r = handleList s e
           \<and> req_callback r = AggregateFeedbackSelector
           \<and> length (req_handles r) = 11 * length (recordsOf s e)
           \<and> sorted_wrt (<) (recordsOf s e)
           \<and> set (recordsOf s e) =
               {i. 1 \<le> i \<and> i \<le> feedbackCount s \<and> executive (feedbacks s i) = e}
           \<and> (\<forall>h \<in> set (req_handles r).
                 \<exists>i. 1 \<le> i \<and> i \<le> feedbackCount s \<and> executive (feedbacks s i) = e
                   \<and> h \<in> set (recordHandles (feedbacks s i)))"
proof -
  from requestAggregation_Inr_D [OF assms]
  have s': "s' = emit (AggregationRequested e)
                  (issueRequest e (handleList s e) AggregateFeedbackSelector s)"
    by simp
  let ?r = "\<lparr>req_id = length (requests s), req_sender = e, req_handles = handleList s e,
             req_callback = AggregateFeedbackSelector\<rparr>"
  have "requests s' = requests s @ [?r]"
    by (simp add: s' emit_def issueRequest_def)
  moreover have "length (req_handles ?r) = 11 * length (recordsOf s e)"
    by (simp add: length_handleList)
  moreover have "\<forall>h \<in> set (req_handles ?r).
      \<exists>i. 1 \<le> i \<and> i \<le> feedbackCount s \<and> executive (feedbacks s i) = e
        \<and> h \<in> set (recordHandles (feedbacks s i))"
    using recordsOf_set [of s e] by (auto simp add: handleList_def)
  ultimately show ?thesis
    using recordsOf_sorted [of s e] recordsOf_set [of s e] by auto
qed

text \<open>
  In the sample history the request of \<open>execA\<close> carries the 55 handles of records 1, 2, 4, 5
  and 6; the handles 310 to 330 of record 3, which is about \<open>execB\<close>, are not among them.
\<close>

theorem requestAggregation_handle_list_witness:
  "requestAggregation execA collected = Inr requested
   \<and> (\<exists>r. requests requested = requests collected @ [r]
         \<and> req_handles r =
            [110, 120, 111, 121, 112, 122, 113, 123, 114, 124, 130, 210, 220, 211, 221, 212,
             222, 213, 223, 214, 224, 230, 410, 420, 411, 421, 412, 422, 413, 423, 414, 424,
             430, 510, 520, 511, 521, 512, 522, 513, 523, 514, 524, 530, 610, 620, 611, 621,
             612, 622, 613, 623, 614, 624, 630]
         \<and> length (req_handles r) = 55)"
proof -
  have ok: "requestAggregation execA collected = Inr requested"
    unfolding requested_eq
    by (rule requestAggregation_succeeds)
       (simp_all add: collected_facts MIN_REVIEWERS_def UINT256_MAX_def)
  show ?thesis
    using requestAggregation_handle_list [OF ok] ok
    by (auto simp add: collected_handleList collected_facts)
qed

subsection \<open>Aggregation callbacks\<close>

text \<open>
  Claim C1 says that a report is claimed by compare-and-set, so that a further accepted
  callback for the same request never writes the report again. The contract has no such test:
  in the sample history, after the accepted callback for request 0 has set the report of
  \<open>execA\<close> (averages 80, 70, 90, 60, 100), a second accepted callback for request 0 with another
  payload finds \<open>isAggregated\<close> true and still replaces the averages by 1, 2, 3, 4, 5.
\<close>

theorem aggregateFeedback_claim_counterexample:
  "isAggregated (reports aggregated execA)
   \<and> encryptedAvgScores (reports aggregated execA) =
       Array5 (Euint32 80) (Euint32 70) (Euint32 90) (Euint32 60) (Euint32 100)
   \<and> checkSignatures stubLibrary 0 payload2 (stubProof 0 payload2)
   \<and> \<not> isl (aggregateFeedback stubLibrary execA 0 payload2 (stubProof 0 payload2) aggregated)
   \<and> encryptedAvgScores
        (reports (step stubLibrary execA 40
           (AggregateFeedback 0 payload2 (stubProof 0 payload2)) aggregated) execA) =
       Array5 (Euint32 1) (Euint32 2) (Euint32 3) (Euint32 4) (Euint32 5)"
  by (simp add: aggregated_facts stub_accepts step_def updating_def emit_def decodedReport_def
      aggregateFeedback_accepted [OF stub_accepts stub_decodes(2)])
     (simp add: stubLibrary_def)

text \<open>
  Claim C1, amended. Every accepted aggregation callback (the proof check passes and the
  payload decodes) sets the report of its caller to the decoded handles with
  \<open>isAggregated\<close> true, whatever the flag was before; the number of accepted callbacks is not
  limited. Delivering the same accepted callback again from the same caller succeeds again and
  leaves every report as the first delivery left it.
\<close>

theorem aggregateFeedback_unconditional:
  assumes "checkSignatures L requestId results prf"
    and "abiDecode L results = Some (avgScores, overallScore)"
  shows "\<exists>s1 s2. aggregateFeedback L sender requestId results prf s = Inr s1
           \<and> reports s1 sender = decodedReport L avgScores overallScore
           \<and> isAggregated (reports s1 sender)
           \<and> aggregateFeedback L sender requestId results prf s1 = Inr s2
           \<and> reports s2 = reports s1"
  by (simp add: aggregateFeedback_accepted [OF assms] emit_def decodedReport_def)

theorem aggregateFeedback_unconditional_witness:
  "checkSignatures stubLibrary 0 payload2 (stubProof 0 payload2)
   \<and> abiDecode stubLibrary payload2 = Some (Array5 1 2 3 4 5, 3)
   \<and> isAggregated (reports aggregated execA)
   \<and> (\<exists>s1 s2.
         aggregateFeedback stubLibrary execA 0 payload2 (stubProof 0 payload2) aggregated = Inr s1
         \<and> reports s1 execA = decodedReport stubLibrary (Array5 1 2 3 4 5) 3
         \<and> isAggregated (reports s1 execA)
         \<and> aggregateFeedback stubLibrary execA 0 payload2 (stubProof 0 payload2) s1 = Inr s2
         \<and> reports s2 = reports s1)"
  using aggregateFeedback_unconditional
      [OF stub_accepts [of 0 payload2] stub_decodes(2), where sender = execA
        and s = aggregated]
  by (simp add: stub_accepts stub_decodes aggregated_facts)

text \<open>
  Claim C2 says that an accepted aggregation callback is applied to the report of the
  executive who issued the request, whoever delivers it. In the sample history request 0 was
  issued by \<open>execA\<close>; when the address \<open>outsider\<close> delivers its result, the callback is
  accepted, the report of \<open>execA\<close> stays empty and the handles go to the report of
  \<open>outsider\<close>.
\<close>

theorem aggregateFeedback_caller_counterexample:
  "map req_id (requests requested) = [0]
   \<and> map req_sender (requests requested) = [execA]
   \<and> outsider \<noteq> execA
   \<and> \<not> isl (aggregateFeedback stubLibrary outsider 0 payload1 (stubProof 0 payload1) requested)
   \<and> reports (step stubLibrary outsider 30
         (AggregateFeedback 0 payload1 (stubProof 0 payload1)) requested) execA = zeroReport
   \<and> reports (step stubLibrary outsider 30
         (AggregateFeedback 0 payload1 (stubProof 0 payload1)) requested) outsider =
       decodedReport stubLibrary (Array5 80 70 90 60 100) 80"
  by (simp add: requested_facts step_def updating_def emit_def
      aggregateFeedback_accepted [OF stub_accepts stub_decodes(1)])
     (simp add: outsider_def execA_def)

text \<open>
  Claim C2, amended. The contract keeps no table of requests, and the request id of a
  callback is used by the proof check only. An accepted aggregation callback writes the
  decoded handles to the report of the address that invoked it and to no other report; the
  result is the same whatever requests have been issued. An accepted decryption callback emits
  \<open>ReportDecrypted\<close> for the address that invoked it.
\<close>

theorem aggregateFeedback_writes_caller:
  assumes "checkSignatures L requestId results prf"
    and "abiDecode L results = Some (avgScores, overallScore)"
  shows "\<exists>s'. aggregateFeedback L sender requestId results prf s = Inr s'
           \<and> reports s' = (reports s)(sender := decodedReport L avgScores overallScore)
           \<and> events s' = events s @ [ReportGenerated sender]
           \<and> requests s' = requests s
           \<and> (\<forall>rq. aggregateFeedback L sender requestId results prf (s\<lparr>requests := rq\<rparr>) =
                  Inr (s'\<lparr>requests := rq\<rparr>))
           \<and> decryptReport L sender requestId results prf s = Inr (emit (ReportDecrypted sender) s)"
  using assms
  by (simp add: aggregateFeedback_accepted [OF assms] emit_def decryptReport_def)

theorem aggregateFeedback_writes_caller_witness:
  "checkSignatures stubLibrary 0 payload1 (stubProof 0 payload1)
   \<and> abiDecode stubLibrary payload1 = Some (Array5 80 70 90 60 100, 80)
   \<and> (\<exists>s'. aggregateFeedback stubLibrary outsider 0 payload1 (stubProof 0 payload1) requested
             = Inr s'
         \<and> reports s' =
            (reports requested)(outsider := decodedReport stubLibrary (Array5 80 70 90 60 100) 80)
         \<and> reports s' execA = zeroReport)"
proof -
  have "outsider \<noteq> execA" by (simp add: outsider_def execA_def)
  then show ?thesis
    using aggregateFeedback_writes_caller
        [OF stub_accepts [of 0 payload1] stub_decodes(1), where sender = outsider
          and s = requested]
    by (auto simp add: stub_accepts stub_decodes requested_facts)
qed

subsection \<open>The gates of requestAggregation\<close>

text \<open>
  Claim C3 makes the absence of a pending request one of three gates of
  \<open>requestAggregation\<close>. The contract has the other two gates only: in the sample history
  \<open>execA\<close> has issued request 0, no callback has been accepted, and a second call by \<open>execA\<close>
  succeeds and issues request 1.
\<close>

theorem requestAggregation_pending_counterexample:
  "pendingAggregation requested execA
   \<and> map req_sender (requests requested) = [execA]
   \<and> \<not> isl (requestAggregation execA requested)
   \<and> map req_id (requests (step stubLibrary execA 21 RequestAggregation requested)) = [0, 1]
   \<and> map req_sender (requests (step stubLibrary execA 21 RequestAggregation requested)) =
       [execA, execA]"
proof -
  have ok: "requestAggregation execA requested =
      Inr (emit (AggregationRequested execA)
            (issueRequest execA (handleList requested execA) AggregateFeedbackSelector
              requested))"
    by (rule requestAggregation_succeeds)
       (simp_all add: requested_facts MIN_REVIEWERS_def UINT256_MAX_def)
  have ids: "requests requested =
      [\<lparr>req_id = 0, req_sender = execA, req_handles = handleList collected execA,
        req_callback = AggregateFeedbackSelector\<rparr>]"
    by (simp add: requested_eq emit_def issueRequest_def collected_facts)
  show ?thesis
    by (simp add: ok ids step_def updating_def emit_def issueRequest_def
        pendingAggregation_def requested_facts collected_events)
qed

text \<open>
  Claim C3, amended. For a registered executive \<open>e\<close>, and as long as eleven times the record
  count fits a \<open>uint256\<close>, \<open>requestAggregation\<close> called by \<open>e\<close> succeeds if and only
  if at least \<open>MIN_REVIEWERS\<close> (five) stored records name \<open>e\<close> and the report of \<open>e\<close> is not
  aggregated; whether an earlier request of \<open>e\<close> is still unanswered plays no part. When the
  report is aggregated the call fails with "Already aggregated", otherwise with fewer than
  five records it fails with "Insufficient feedback"; both are precondition errors, and a
  failed call leaves the state as it was.
\<close>

theorem requestAggregation_gates:
  assumes "isExecutive s e" and "feedbackCount s * 11 \<le> UINT256_MAX"
  shows "((\<exists>s'. requestAggregation e s = Inr s') \<longleftrightarrow>
            MIN_REVIEWERS \<le> length (recordsOf s e) \<and> \<not> isAggregated (reports s e))
         \<and> (isAggregated (reports s e) \<longrightarrow>
               requestAggregation e s = Inl (Require ''Already aggregated''))
         \<and> (\<not> isAggregated (reports s e) \<and> length (recordsOf s e) < MIN_REVIEWERS \<longrightarrow>
               requestAggregation e s = Inl (Require ''Insufficient feedback''))
         \<and> (\<forall>err. requestAggregation e s = Inl err \<longrightarrow>
               preconditionError err \<and> step L e now RequestAggregation s = s)"
proof -
  have len: "length (recordsOf s e) \<le> feedbackCount s"
    unfolding recordsOf_def
    by (rule order_trans [OF length_filter_le]) simp
  have range: "feedbackCount s < UINT256_MAX"
    using assms(2) UINT256_MAX_pos by (cases "feedbackCount s") auto
  have prod: "length (recordsOf s e) * 11 \<le> UINT256_MAX"
    using len assms(2) by simp
  have agg: "requestAggregation e s = Inl (Require ''Already aggregated'')"
    if "isAggregated (reports s e)"
    using that assms(1) by (simp add: requestAggregation_def)
  have few: "requestAggregation e s = Inl (Require ''Insufficient feedback'')"
    if "\<not> isAggregated (reports s e)" and "length (recordsOf s e) < MIN_REVIEWERS"
    using that assms(1) range
    by (simp add: requestAggregation_def countFeedback_all del: One_nat_def)
  have ok: "\<exists>s'. requestAggregation e s = Inr s'"
    if "\<not> isAggregated (reports s e)" and "MIN_REVIEWERS \<le> length (recordsOf s e)"
    using requestAggregation_succeeds [OF assms(1) that range prod] by simp
  have iff: "(\<exists>s'. requestAggregation e s = Inr s') \<longleftrightarrow>
      MIN_REVIEWERS \<le> length (recordsOf s e) \<and> \<not> isAggregated (reports s e)"
    using ok requestAggregation_Inr_D [of e s] by blast
  have err: "preconditionError err \<and> step L e now RequestAggregation s = s"
    if "requestAggregation e s = Inl err" for err
  proof (cases "isAggregated (reports s e)")
    case True
    then show ?thesis
      using that agg by (simp add: preconditionError_def step_def updating_def)
  next
    case False
    then have "length (recordsOf s e) < MIN_REVIEWERS"
      using ok that by (cases "MIN_REVIEWERS \<le> length (recordsOf s e)") auto
    then show ?thesis
      using that few False by (simp add: preconditionError_def step_def updating_def)
  qed
  show ?thesis
    using iff agg few err by blast
qed

text \<open>
  The threshold in the sample history: with four records about \<open>execA\<close> the call fails, with
  five it succeeds, and it succeeds again while the first request is unanswered.
\<close>

theorem requestAggregation_gates_witness:
  "isExecutive collecting execA \<and> feedbackCount collecting * 11 \<le> UINT256_MAX
   \<and> length (recordsOf collecting execA) = 4
   \<and> requestAggregation execA collecting = Inl (Require ''Insufficient feedback'')
   \<and> isExecutive collected execA \<and> feedbackCount collected * 11 \<le> UINT256_MAX
   \<and> length (recordsOf collected execA) = 5
   \<and> (\<exists>s'. requestAggregation execA collected = Inr s')
   \<and> step stubLibrary execA 20 RequestAggregation collecting = collecting"
proof -
  have a: "isExecutive collecting execA" and b: "feedbackCount collecting * 11 \<le> UINT256_MAX"
    and c: "isExecutive collected execA" and d: "feedbackCount collected * 11 \<le> UINT256_MAX"
    by (simp_all add: collecting_facts collected_facts UINT256_MAX_def)
  show ?thesis
    using requestAggregation_gates [OF a b, of stubLibrary 20]
      requestAggregation_gates [OF c d, of stubLibrary 20]
    by (simp add: collecting_facts collected_facts MIN_REVIEWERS_def UINT256_MAX_def)
qed

subsection \<open>Rejected callbacks\<close>

text \<open>
  Claim C4. A callback, of either kind, whose proof check fails or whose payload does not
  decode reverts: the call returns an error and the transaction leaves the whole state, and
  so every report and every issued request, as it was. In particular a report that was not
  aggregated before such a callback is not aggregated after it.
\<close>

theorem rejected_callback_changes_nothing:
  assumes "\<not> checkSignatures L requestId payload sg \<or> abiDecode L payload = None"
  shows "isl (aggregateFeedback L sender requestId payload sg s)
         \<and> isl (decryptReport L sender requestId payload sg s)
         \<and> step L sender now (AggregateFeedback requestId payload sg) s = s
         \<and> step L sender now (DecryptReport requestId payload sg) s = s
         \<and> isAggregated
             (reports (step L sender now (AggregateFeedback requestId payload sg) s) e) =
            isAggregated (reports s e)"
  using assms
  by (auto simp add: aggregateFeedback_def decryptReport_def step_def updating_def)

text \<open>
  In the sample history, while request 0 is unanswered: the payload is exchanged and the proof
  of the original payload is kept; or the payload has three bytes and does not decode.
\<close>

theorem rejected_callback_changes_nothing_witness:
  "\<not> checkSignatures stubLibrary 0 payload2 (stubProof 0 payload1)
   \<and> step stubLibrary execA 30 (AggregateFeedback 0 payload2 (stubProof 0 payload1)) requested =
       requested
   \<and> \<not> isAggregated
         (reports (step stubLibrary execA 30
            (AggregateFeedback 0 payload2 (stubProof 0 payload1)) requested) execA)
   \<and> abiDecode stubLibrary [1, 2, 3] = None
   \<and> step stubLibrary execA 30 (AggregateFeedback 0 [1, 2, 3] (stubProof 0 [1, 2, 3])) requested =
       requested
   \<and> step stubLibrary execA 30 (DecryptReport 0 [1, 2, 3] (stubProof 0 [1, 2, 3])) requested =
       requested"
proof -
  have forged: "\<not> checkSignatures stubLibrary 0 payload2 (stubProof 0 payload1)"
    by (simp add: stubLibrary_def stubProof_def payload1_def payload2_def)
  have short: "abiDecode stubLibrary [1, 2, 3] = None"
    by (simp add: stubLibrary_def)
  show ?thesis
    using rejected_callback_changes_nothing [where L = stubLibrary and requestId = 0
        and payload = payload2 and sg = "stubProof 0 payload1" and sender = execA
        and now = 30 and s = requested and e = execA]
      rejected_callback_changes_nothing [where L = stubLibrary and requestId = 0
        and payload = "[1, 2, 3]" and sg = "stubProof 0 [1, 2, 3]" and sender = execA
        and now = 30 and s = requested and e = execA]
      forged short
    by (simp add: requested_facts)
qed

subsection \<open>Submitting feedback\<close>

text \<open>
  Claim C5 says that \<open>submitFeedback\<close> returns the id of the new record and that it
  succeeds exactly when the two roles are held. The function has no return value: the first
  submission of the sample history succeeds, creates record 1 and returns nothing. And
  the checked increment of the record counter makes the call panic, with both roles held, once
  the counter has reached the largest \<open>uint256\<close>.
\<close>

theorem submitFeedback_result_counterexample:
  "isReviewer registered 1 \<and> isExecutive registered execA
   \<and> map_sum id fst
        (exec stubLibrary 1 11
           (SubmitFeedback execA (handles5 110) (handles5 120) (Euint32 130)) registered) =
       Inr Void
   \<and> feedbackCount
        (step stubLibrary 1 11
           (SubmitFeedback execA (handles5 110) (handles5 120) (Euint32 130)) registered) = 1
   \<and> submitFeedback 1 11 execA (handles5 110) (handles5 120) (Euint32 130)
        (registered\<lparr>feedbackCount := UINT256_MAX\<rparr>) = Inl Panic"
  by (simp add: registered_roles step_def updating_def submitFeedback_eq UINT256_MAX_def)

text \<open>
  Claim C5, amended. \<open>submitFeedback\<close> succeeds exactly when the caller is an approved
  reviewer, the target is a registered executive and the record counter is below the largest
  \<open>uint256\<close>; the handles play no part in that. On success it adds one to the counter, stores
  under the new counter value a record with the given executive, the caller, the five (score,
  weight) pairs, the comment handle and the block timestamp, emits
  \<open>FeedbackSubmitted\<close> with the new id and the executive, changes nothing else and returns no
  value. Without the reviewer role it fails with "Not reviewer", and with it but without a
  registered executive with "Invalid executive", both authorization errors; a failed call
  leaves the state as it was.
\<close>

theorem submitFeedback_effect:
  "((\<exists>s'. submitFeedback sender now ex sc w c s = Inr s') \<longleftrightarrow>
      isReviewer s sender \<and> isExecutive s ex \<and> feedbackCount s < UINT256_MAX)
   \<and> (isReviewer s sender \<and> isExecutive s ex \<and> feedbackCount s < UINT256_MAX \<longrightarrow>
        exec L sender now (SubmitFeedback ex sc w c) s =
          Inr (Void,
               s\<lparr>feedbackCount := feedbackCount s + 1,
                 feedbacks := (feedbacks s)(feedbackCount s + 1 :=
                   \<lparr>executive = ex, reviewer = sender, categories = pairCategories sc w,
                    encryptedComments = c, timestamp = now\<rparr>),
                 events := events s @ [FeedbackSubmitted (feedbackCount s + 1) ex]\<rparr>))
   \<and> (\<not> isReviewer s sender \<longrightarrow>
        submitFeedback sender now ex sc w c s = Inl (Require ''Not reviewer''))
   \<and> (isReviewer s sender \<and> \<not> isExecutive s ex \<longrightarrow>
        submitFeedback sender now ex sc w c s = Inl (Require ''Invalid executive''))
   \<and> (\<not> (isReviewer s sender \<and> isExecutive s ex) \<longrightarrow>
        (\<exists>err. submitFeedback sender now ex sc w c s = Inl err \<and> authorizationError err))
   \<and> (\<forall>err. submitFeedback sender now ex sc w c s = Inl err \<longrightarrow>
        step L sender now (SubmitFeedback ex sc w c) s = s)"
  by (auto simp add: submitFeedback_eq updating_def step_def authorizationError_def)

theorem submitFeedback_effect_witness:
  "isReviewer registered 1 \<and> isExecutive registered execA
   \<and> feedbackCount registered < UINT256_MAX
   \<and> (\<exists>s'. submitFeedback 1 11 execA (handles5 110) (handles5 120) (Euint32 130) registered =
         Inr s')
   \<and> feedbackCount
        (step stubLibrary 1 11
           (SubmitFeedback execA (handles5 110) (handles5 120) (Euint32 130)) registered) = 1
   \<and> executive
        (feedbacks (step stubLibrary 1 11
           (SubmitFeedback execA (handles5 110) (handles5 120) (Euint32 130)) registered) 1) =
       execA
   \<and> \<not> isReviewer registered outsider
   \<and> submitFeedback outsider 11 execA (handles5 110) (handles5 120) (Euint32 130) registered =
       Inl (Require ''Not reviewer'')
   \<and> \<not> isExecutive registered outsider
   \<and> submitFeedback 1 11 outsider (handles5 110) (handles5 120) (Euint32 130) registered =
       Inl (Require ''Invalid executive'')"
proof -
  have roles: "isReviewer registered 1" "isExecutive registered execA"
    "feedbackCount registered < UINT256_MAX"
    "\<not> isReviewer registered outsider" "\<not> isExecutive registered outsider"
    by (simp_all add: history_defs)
  note good = submitFeedback_effect [where sender = 1 and now = 11 and ex = execA
      and sc = "handles5 110" and w = "handles5 120" and c = "Euint32 130"
      and s = registered and L = stubLibrary]
  note noReviewer = submitFeedback_effect [where sender = outsider and now = 11 and ex = execA
      and sc = "handles5 110" and w = "handles5 120" and c = "Euint32 130"
      and s = registered and L = stubLibrary]
  note noExecutive = submitFeedback_effect [where sender = 1 and now = 11 and ex = outsider
      and sc = "handles5 110" and w = "handles5 120" and c = "Euint32 130"
      and s = registered and L = stubLibrary]
  from good roles have ok:
    "\<exists>s'. submitFeedback 1 11 execA (handles5 110) (handles5 120) (Euint32 130) registered =
       Inr s'"
    by blast
  from good roles have "exec stubLibrary 1 11
      (SubmitFeedback execA (handles5 110) (handles5 120) (Euint32 130)) registered =
    Inr (Void,
         registered\<lparr>feedbackCount := feedbackCount registered + 1,
           feedbacks := (feedbacks registered)(feedbackCount registered + 1 :=
             \<lparr>executive = execA, reviewer = 1,
              categories = pairCategories (handles5 110) (handles5 120),
              encryptedComments = Euint32 130, timestamp = 11\<rparr>),
           events := events registered @
             [FeedbackSubmitted (feedbackCount registered + 1) execA]\<rparr>)"
    by blast
  then have after:
    "feedbackCount (step stubLibrary 1 11
       (SubmitFeedback execA (handles5 110) (handles5 120) (Euint32 130)) registered) = 1"
    "executive (feedbacks (step stubLibrary 1 11
       (SubmitFeedback execA (handles5 110) (handles5 120) (Euint32 130)) registered) 1) =
     execA"
    using roles(3) by (simp_all add: step_def registered_roles)
  from noReviewer roles have e1:
    "submitFeedback outsider 11 execA (handles5 110) (handles5 120) (Euint32 130) registered =
       Inl (Require ''Not reviewer'')"
    by blast
  from noExecutive roles have e2:
    "submitFeedback 1 11 outsider (handles5 110) (handles5 120) (Euint32 130) registered =
       Inl (Require ''Invalid executive'')"
    by blast
  show ?thesis
    using roles ok after e1 e2 by blast
qed

subsection \<open>Decryption\<close>

text \<open>
  Claim C6. For a registered executive \<open>e\<close>, \<open>requestReportDecryption\<close> called by \<open>e\<close>
  succeeds exactly when the report of \<open>e\<close> is aggregated. Before that it fails with
  "Report not ready", a precondition error, and the state stays as it was. For any caller, a
  call that succeeds found the caller's report aggregated.
\<close>

theorem requestReportDecryption_gate:
  assumes "isExecutive s e"
  shows "(\<not> isAggregated (reports s e) \<longrightarrow>
            requestReportDecryption e s = Inl (Require ''Report not ready'')
            \<and> preconditionError (Require ''Report not ready'')
            \<and> step L e now RequestReportDecryption s = s)
         \<and> (isAggregated (reports s e) \<longrightarrow> (\<exists>s'. requestReportDecryption e s = Inr s'))
         \<and> (\<forall>a s'. requestReportDecryption a s = Inr s' \<longrightarrow> isAggregated (reports s a))"
  using assms
  by (auto simp add: requestReportDecryption_eq preconditionError_def step_def updating_def
      split: if_splits)

text \<open>
  In the sample history the call of \<open>execA\<close> fails while request 0 is unanswered and succeeds
  after the accepted callback, with the five average handles and the overall handle.
\<close>

theorem requestReportDecryption_gate_witness:
  "isExecutive requested execA \<and> \<not> isAggregated (reports requested execA)
   \<and> requestReportDecryption execA requested = Inl (Require ''Report not ready'')
   \<and> step stubLibrary execA 25 RequestReportDecryption requested = requested
   \<and> isExecutive aggregated execA \<and> isAggregated (reports aggregated execA)
   \<and> (\<exists>s'. requestReportDecryption execA aggregated = Inr s')"
  using requestReportDecryption_gate [OF requested_facts(1), of stubLibrary 25]
    requestReportDecryption_gate [OF aggregated_facts(1), of stubLibrary 25]
    requested_facts(1,2) aggregated_facts(1,2)
  by blast

text \<open>
  Claim C9. Neither \<open>requestReportDecryption\<close> nor a decryption callback, accepted or not,
  changes the report of any executive: the table of reports after the transaction is the table
  before it, with every average handle, overall handle and flag.
\<close>

theorem decryption_keeps_reports:
  "reports (step L sender now RequestReportDecryption s) = reports s
   \<and> reports (step L sender now (DecryptReport requestId cleartexts sg) s) = reports s
   \<and> (\<forall>s'. requestReportDecryption sender s = Inr s' \<longrightarrow> reports s' = reports s)
   \<and> (\<forall>s'. decryptReport L sender requestId cleartexts sg s = Inr s' \<longrightarrow>
         reports s' = reports s)"
  by (auto simp add: step_def updating_def requestReportDecryption_eq issueRequest_def
      decryptReport_def emit_def split: if_splits option.splits)

theorem decryption_keeps_reports_witness:
  "(\<exists>s'. requestReportDecryption execA aggregated = Inr s' \<and> reports s' = reports aggregated)
   \<and> (\<exists>s'. decryptReport stubLibrary execA 1 payload1 (stubProof 1 payload1) aggregated = Inr s'
         \<and> reports s' = reports aggregated)
   \<and> encryptedAvgScores
        (reports (step stubLibrary execA 50
           (DecryptReport 1 payload1 (stubProof 1 payload1))
           (step stubLibrary execA 40 RequestReportDecryption aggregated)) execA) =
       Array5 (Euint32 80) (Euint32 70) (Euint32 90) (Euint32 60) (Euint32 100)"
proof -
  have req: "\<exists>s'. requestReportDecryption execA aggregated = Inr s'"
    by (simp add: requestReportDecryption_eq aggregated_facts)
  have cb: "\<exists>s'. decryptReport stubLibrary execA 1 payload1 (stubProof 1 payload1) aggregated =
      Inr s'"
    by (simp add: decryptReport_def stub_accepts stub_decodes)
  have "reports (step stubLibrary execA 50 (DecryptReport 1 payload1 (stubProof 1 payload1))
      (step stubLibrary execA 40 RequestReportDecryption aggregated)) = reports aggregated"
    using decryption_keeps_reports [where L = stubLibrary and sender = execA and now = 50
        and requestId = 1 and cleartexts = payload1 and sg = "stubProof 1 payload1"
        and s = "step stubLibrary execA 40 RequestReportDecryption aggregated"]
      decryption_keeps_reports [where L = stubLibrary and sender = execA and now = 40
        and s = aggregated]
    by simp
  then show ?thesis
    using req cb
      decryption_keeps_reports [where L = stubLibrary and sender = execA
        and requestId = 1 and cleartexts = payload1 and sg = "stubProof 1 payload1"
        and s = aggregated]
    by (auto simp add: aggregated_facts)
qed

subsection \<open>The record log\<close>

lemma step_feedbacks:
  assumes "1 \<le> i" and "i \<le> feedbackCount s"
  shows "feedbacks (step L sender now c s) i = feedbacks s i"
proof (cases "exec L sender now c s")
  case (Inl err)
  then show ?thesis by (simp add: step_def)
next
  case (Inr rs)
  obtain r s' where rs: "rs = (r, s')"
    by (cases rs) auto
  show ?thesis
    using exec_feedbacks [of L sender now c s r s' i] assms Inr
    by (simp add: step_def rs)
qed

lemma step_feedbackCount:
  "feedbackCount (step L sender now c s) = feedbackCount s
   \<or> feedbackCount (step L sender now c s) = feedbackCount s + 1"
proof (cases "exec L sender now c s")
  case (Inl err)
  then show ?thesis by (simp add: step_def)
next
  case (Inr rs)
  obtain r s' where rs: "rs = (r, s')"
    by (cases rs) auto
  show ?thesis
    using exec_feedbackCount [of L sender now c s r s'] Inr
    by (auto simp add: step_def rs)
qed

lemma run_feedbacks:
  "1 \<le> i \<Longrightarrow> i \<le> feedbackCount s \<Longrightarrow>
   feedbacks (run L txs s) i = feedbacks s i \<and> feedbackCount s \<le> feedbackCount (run L txs s)"
proof (induction txs arbitrary: s)
  case Nil
  then show ?case by simp
next
  case (Cons tx txs)
  obtain sender now c where tx: "tx = (sender, now, c)"
    by (cases tx) auto
  let ?s1 = "step L sender now c s"
  have le: "feedbackCount s \<le> feedbackCount ?s1"
    using step_feedbackCount [of L sender now c s] by auto
  then have "i \<le> feedbackCount ?s1"
    using Cons.prems by simp
  then have "feedbacks (run L txs ?s1) i = feedbacks ?s1 i
      \<and> feedbackCount ?s1 \<le> feedbackCount (run L txs ?s1)"
    using Cons.IH [of ?s1] Cons.prems(1) by simp
  then show ?case
    using le step_feedbacks [OF Cons.prems, of L sender now c] by (simp add: tx)
qed

text \<open>
  Claim C8. The records form an append-only log. Whatever transactions follow, by any
  senders and whether they succeed or revert, a record stored under an id between 1 and the
  record count keeps all its fields, and the record count never decreases; one transaction
  leaves the count as it is or raises it by one, so that a new record always gets an id
  above every stored one.
\<close>

theorem feedback_log_append_only:
  assumes "1 \<le> i" and "i \<le> feedbackCount s"
  shows "feedbacks (run L txs s) i = feedbacks s i
         \<and> feedbackCount s \<le> feedbackCount (run L txs s)
         \<and> feedbacks (step L sender now c s) i = feedbacks s i
         \<and> (feedbackCount (step L sender now c s) = feedbackCount s
              \<or> feedbackCount (step L sender now c s) = feedbackCount s + 1)"
  using run_feedbacks [OF assms, of L txs] step_feedbacks [OF assms, of L sender now c]
    step_feedbackCount [of L sender now c s]
  by blast

text \<open>
  Record 1 of the sample history after the last submission, the aggregation request and
  its callback.
\<close>

theorem feedback_log_append_only_witness:
  "(1::nat) \<le> 1 \<and> 1 \<le> feedbackCount collecting
   \<and> feedbacks
        (run stubLibrary
           [(5, 16, SubmitFeedback execA (handles5 610) (handles5 620) (Euint32 630)),
            (execA, 20, RequestAggregation),
            (execA, 30, AggregateFeedback 0 payload1 (stubProof 0 payload1))]
           collecting) 1 = feedbacks collecting 1
   \<and> reviewer (feedbacks collecting 1) = 1
   \<and> encryptedComments (feedbacks collecting 1) = Euint32 130"
proof -
  have i: "(1::nat) \<le> 1" and stored: "1 \<le> feedbackCount collecting"
    by (simp_all add: collecting_facts)
  have "reviewer (feedbacks collecting 1) = 1"
    and "encryptedComments (feedbacks collecting 1) = Euint32 130"
    by (simp_all add: history_defs)
  then show ?thesis
    using feedback_log_append_only [OF i stored, where L = stubLibrary and txs =
        "[(5, 16, SubmitFeedback execA (handles5 610) (handles5 620) (Euint32 630)),
          (execA, 20, RequestAggregation),
          (execA, 30, AggregateFeedback 0 payload1 (stubProof 0 payload1))]"]
      i stored
    by blast
qed

subsection \<open>Reading a category average\<close>

text \<open>
  Claim C10. \<open>getEncryptedCategoryScore\<close> asks nothing of its caller. For a category below
  5 it returns the handle stored at that position of the executive's report, the array access
  being in bounds; for any other category it fails with "Invalid category"; it never panics
  and leaves the state as it is.
\<close>

theorem getEncryptedCategoryScore_total:
  "(category < 5 \<longrightarrow>
      getEncryptedCategoryScore sender ex category s =
        Inr (list5 (encryptedAvgScores (reports s ex)) ! category)
      \<and> category < length (list5 (encryptedAvgScores (reports s ex))))
   \<and> (\<not> category < 5 \<longrightarrow>
        getEncryptedCategoryScore sender ex category s = Inl (Require ''Invalid category''))
   \<and> getEncryptedCategoryScore sender ex category s \<noteq> Inl Panic
   \<and> step L sender now (GetEncryptedCategoryScore ex category) s = s"
proof (cases "encryptedAvgScores (reports s ex)")
  case (Array5 a0 a1 a2 a3 a4)
  have "category < 5 \<Longrightarrow> category \<in> {0, 1, 2, 3, 4}"
    by auto
  then show ?thesis
    by (auto simp add: getEncryptedCategoryScore_def Array5 step_def viewing_def)
qed

text \<open>
  In the sample history the address without any role reads the first average of \<open>execA\<close>;
  category 5 is refused.
\<close>

theorem getEncryptedCategoryScore_total_witness:
  "\<not> isExecutive aggregated outsider \<and> \<not> isReviewer aggregated outsider
   \<and> getEncryptedCategoryScore outsider execA 0 aggregated = Inr (Euint32 80)
   \<and> getEncryptedCategoryScore outsider execA 4 aggregated = Inr (Euint32 100)
   \<and> getEncryptedCategoryScore outsider execA 5 aggregated = Inl (Require ''Invalid category'')
   \<and> step stubLibrary outsider 60 (GetEncryptedCategoryScore execA 0) aggregated = aggregated"
proof -
  have roles: "\<not> isExecutive aggregated outsider" "\<not> isReviewer aggregated outsider"
    by (simp_all add: aggregated_eq requested_eq emit_def issueRequest_def history_defs)
  show ?thesis
    using getEncryptedCategoryScore_total [where category = 0 and sender = outsider
        and ex = execA and s = aggregated and L = stubLibrary and now = 60]
      getEncryptedCategoryScore_total [where category = 4 and sender = outsider
        and ex = execA and s = aggregated and L = stubLibrary and now = 60]
      getEncryptedCategoryScore_total [where category = 5 and sender = outsider
        and ex = execA and s = aggregated and L = stubLibrary and now = 60]
      roles
    by (simp add: aggregated_facts)
qed

end
